theory Spec2Isabelle
  imports Complex_Main
begin

section \<open>Python strings\<close>

text \<open>
  A Python \<open>str\<close> is a sequence of Unicode code points.  It is modelled as a list of
  natural numbers, one per code point, so that the star glyph U+2B50 of the rendered
  rows is one element.  \<open>lit\<close> turns an ASCII literal into such a list.
\<close>

type_synonym pystr = "nat list"

definition lit :: "string \<Rightarrow> pystr" where
  "lit s = map of_char s"

definition nl :: pystr where
  "nl = [10]"

text \<open>
  \<open>str.isspace\<close> of one code point, which is also what \<open>\s\<close> matches in a \<open>str\<close>
  pattern and what \<open>str.strip()\<close> removes: the code points CPython's Unicode tables
  list as whitespace.
\<close>

definition isspace :: "nat \<Rightarrow> bool" where
  "isspace c \<longleftrightarrow>
     (9 \<le> c \<and> c \<le> 13) \<or> (28 \<le> c \<and> c \<le> 32) \<or> c = 133 \<or> c = 160 \<or> c = 5760 \<or>
     (8192 \<le> c \<and> c \<le> 8202) \<or> c = 8232 \<or> c = 8233 \<or> c = 8239 \<or> c = 8287 \<or> c = 12288"

definition py_lstrip :: "pystr \<Rightarrow> pystr" where
  "py_lstrip s = dropWhile isspace s"

definition py_rstrip :: "pystr \<Rightarrow> pystr" where
  "py_rstrip s = rev (dropWhile isspace (rev s))"

definition py_strip :: "pystr \<Rightarrow> pystr" where
  "py_strip s = py_rstrip (py_lstrip s)"

text \<open>
  \<open>s.replace(old, new)\<close>: every non-overlapping occurrence of \<open>old\<close>, leftmost first.
  For an empty \<open>old\<close> Python puts \<open>new\<close> before every code point and at the end.
\<close>

function py_replace :: "pystr \<Rightarrow> pystr \<Rightarrow> pystr \<Rightarrow> pystr" where
  "py_replace old new s =
     (if old = [] then new @ concat (map (\<lambda>c. c # new) s)
      else if s = [] then []
      else if take (length old) s = old then new @ py_replace old new (drop (length old) s)
      else hd s # py_replace old new (tl s))"
  by pat_completeness auto
termination
  by (relation "measure (\<lambda>(old, new, s). length s)") auto

declare py_replace.simps [simp del]

text \<open>\<open>sep.join(xs)\<close>.\<close>

fun py_join :: "pystr \<Rightarrow> pystr list \<Rightarrow> pystr" where
  "py_join sep [] = []"
| "py_join sep [x] = x"
| "py_join sep (x # y # ys) = x @ sep @ py_join sep (y # ys)"

text \<open>\<open>str(n)\<close> of a natural number and of an integer, in decimal.\<close>

function str_nat :: "nat \<Rightarrow> pystr" where
  "str_nat n = (if n < 10 then [48 + n] else str_nat (n div 10) @ [48 + n mod 10])"
  by pat_completeness auto
termination
  by (relation "measure (\<lambda>n. n)") auto

declare str_nat.simps [simp del]

definition str_int :: "int \<Rightarrow> pystr" where
  "str_int i = (if i < 0 then 45 # str_nat (nat (- i)) else str_nat (nat i))"

section \<open>Table of contents\<close>

text \<open>
  \<open>str.lower\<close> and the class \<open>\w\<close> of the regular expression engine read CPython's
  Unicode character database, which is not part of the repository.  The two tables are
  a parameter of the model: \<open>lower\<close> is \<open>str.lower\<close> on a whole string, \<open>isalnum\<close> is
  \<open>str.isalnum\<close> on one code point (\<open>\w\<close> is \<open>isalnum\<close> or the underscore).
\<close>

record unicode_db =
  lower :: "pystr \<Rightarrow> pystr"
  isalnum :: "nat \<Rightarrow> bool"

text \<open>\<open>re.sub(r"[^\w\s-]", "", slug)\<close>: keep word characters, whitespace and the hyphen.\<close>

definition strip_symbols :: "unicode_db \<Rightarrow> pystr \<Rightarrow> pystr" where
  "strip_symbols U s = filter (\<lambda>c. isalnum U c \<or> c = 95 \<or> isspace c \<or> c = 45) s"

text \<open>\<open>re.sub(r"\s+", "-", slug)\<close>: every maximal run of whitespace becomes one hyphen.\<close>

function collapse_spaces :: "pystr \<Rightarrow> pystr" where
  "collapse_spaces [] = []"
| "collapse_spaces (c # cs) =
     (if isspace c then 45 # collapse_spaces (dropWhile isspace cs)
      else c # collapse_spaces cs)"
  by pat_completeness auto
termination
  by (relation "measure length") (auto simp: less_Suc_eq_le length_dropWhile_le)

definition slugify :: "unicode_db \<Rightarrow> pystr \<Rightarrow> pystr" where
  "slugify U text =
     (let slug = lower U (py_strip text);
          slug = strip_symbols U slug;
          slug = collapse_spaces slug
      in if slug = [] then lit ''section'' else slug)"

text \<open>
  The loop of \<open>build_toc\<close>: \<open>anchors\<close> is the dictionary from a slug to the number of
  sections that had it so far; the result is the list of lines appended to \<open>toc_lines\<close>.
\<close>

fun toc_entries :: "unicode_db \<Rightarrow> (pystr \<rightharpoonup> nat) \<Rightarrow> pystr list \<Rightarrow> pystr list" where
  "toc_entries U anchors [] = []"
| "toc_entries U anchors (section # rest) =
     (let slug = slugify U section;
          count = (case anchors slug of None \<Rightarrow> 0 | Some n \<Rightarrow> n);
          unique_slug = (if count = 0 then slug else slug @ lit ''-'' @ str_nat count)
      in (lit ''- ['' @ section @ lit ''](#'' @ unique_slug @ lit '')'')
         # toc_entries U (anchors(slug \<mapsto> count + 1)) rest)"

definition build_toc :: "unicode_db \<Rightarrow> pystr list \<Rightarrow> pystr" where
  "build_toc U sections =
     (let cleaned_sections = filter (\<lambda>section. section \<noteq> []) sections
      in if cleaned_sections = [] then []
         else py_join nl ([lit ''## TOC'', []] @ toc_entries U Map.empty cleaned_sections @ [[]]))"

text \<open>The tables restricted to ASCII, where they are known without the database.\<close>

definition ascii_lower :: "pystr \<Rightarrow> pystr" where
  "ascii_lower s = map (\<lambda>c. if 65 \<le> c \<and> c \<le> 90 then c + 32 else c) s"

definition ascii_isalnum :: "nat \<Rightarrow> bool" where
  "ascii_isalnum c \<longleftrightarrow> (48 \<le> c \<and> c \<le> 57) \<or> (65 \<le> c \<and> c \<le> 90) \<or> (97 \<le> c \<and> c \<le> 122)"

definition ascii_db :: unicode_db where
  "ascii_db = \<lparr>lower = ascii_lower, isalnum = ascii_isalnum\<rparr>"

subsection \<open>The anchors as the specification words them\<close>

text \<open>
  The anchor of the \<open>i\<close>-th entry: the slug of its section, followed by a hyphen and
  the number of earlier sections with the same slug when there are any.
\<close>

definition toc_anchor :: "unicode_db \<Rightarrow> pystr list \<Rightarrow> nat \<Rightarrow> pystr" where
  "toc_anchor U sections i =
     (let slug = slugify U (sections ! i);
          k = length (filter (\<lambda>s. slugify U s = slug) (take i sections))
      in if k = 0 then slug else slug @ lit ''-'' @ str_nat k)"

section \<open>JSON values and the record store\<close>

text \<open>
  What \<open>json.loads\<close> returns.  A Python float is a dyadic rational, an infinity or the
  one NaN object of the decoder; an object is a dictionary with string keys, kept as an
  association list in insertion order.
\<close>

datatype pyfloat = Finite rat | PosInf | NegInf | NaN

datatype json =
    JNull
  | JBool bool
  | JInt int
  | JFloat pyfloat
  | JStr pystr
  | JList "json list"
  | JDict "(pystr \<times> json) list"

text \<open>
  The exceptions of the model.  JSONDecodeError, RecursionError and ValueError are
  raised by \<open>json.loads\<close>, UnicodeDecodeError by reading a file that is not UTF-8, OSError
  by \<open>open\<close> for another reason than a missing file.
\<close>

datatype error =
    AttributeError
  | TypeError
  | KeyError
  | FileNotFoundError
  | JSONDecodeError
  | RecursionError
  | ValueError
  | UnicodeDecodeError
  | OSError

text \<open>Python's truth value of a decoded value (\<open>if full:\<close>, \<open>x or ""\<close>).\<close>

fun truthy :: "json \<Rightarrow> bool" where
  "truthy JNull = False"
| "truthy (JBool b) = b"
| "truthy (JInt i) = (i \<noteq> 0)"
| "truthy (JFloat f) = (f \<noteq> Finite 0)"
| "truthy (JStr s) = (s \<noteq> [])"
| "truthy (JList xs) = (xs \<noteq> [])"
| "truthy (JDict kv) = (kv \<noteq> [])"

text \<open>Lists and dictionaries cannot be dictionary keys: hashing them raises TypeError.\<close>

fun hashable :: "json \<Rightarrow> bool" where
  "hashable (JList xs) = False"
| "hashable (JDict kv) = False"
| "hashable v = True"

text \<open>
  Equality of dictionary keys: \<open>True\<close>, \<open>1\<close> and \<open>1.0\<close> are one key, every other value
  is equal to itself only.
\<close>

fun number_of :: "json \<Rightarrow> pyfloat option" where
  "number_of (JBool b) = Some (Finite (if b then 1 else 0))"
| "number_of (JInt i) = Some (Finite (of_int i))"
| "number_of (JFloat f) = Some f"
| "number_of v = None"

definition py_eq :: "json \<Rightarrow> json \<Rightarrow> bool" where
  "py_eq a b =
     (case (number_of a, number_of b) of
        (Some x, Some y) \<Rightarrow> x = y
      | (None, None) \<Rightarrow> a = b
      | _ \<Rightarrow> False)"

text \<open>
  A dictionary keyed by decoded values, in insertion order.  \<open>d[k] = v\<close> on a key that
  is present keeps the key's place (and the key object) and replaces the value.
\<close>

type_synonym jdata = "(json \<times> json) list"

fun dict_set :: "jdata \<Rightarrow> json \<Rightarrow> json \<Rightarrow> jdata" where
  "dict_set [] k v = [(k, v)]"
| "dict_set ((k', v') # rest) k v =
     (if py_eq k' k then (k', v) # rest else (k', v') # dict_set rest k v)"

fun dict_lookup :: "jdata \<Rightarrow> json \<Rightarrow> json option" where
  "dict_lookup [] k = None"
| "dict_lookup ((k', v') # rest) k = (if py_eq k' k then Some v' else dict_lookup rest k)"

text \<open>\<open>obj.get(key, default)\<close> on a decoded object.\<close>

definition dict_get :: "(pystr \<times> json) list \<Rightarrow> pystr \<Rightarrow> json \<Rightarrow> json" where
  "dict_get kv key dflt = (case map_of kv key of None \<Rightarrow> dflt | Some v \<Rightarrow> v)"

subsection \<open>\<open>get_all_starred\<close>: writing the store\<close>

text \<open>
  The dictionary literal of lines 66 to 72, and the line written for it.  \<open>json.dumps\<close>
  is the library's encoder, a parameter \<open>dumps\<close> of the model.
\<close>

definition entry :: "json \<Rightarrow> json \<Rightarrow> json \<Rightarrow> json \<Rightarrow> json \<Rightarrow> json" where
  "entry full_name html_url description listed stars =
     JDict [(lit ''full_name'', full_name), (lit ''html_url'', html_url),
            (lit ''description'', description), (lit ''listed'', listed),
            (lit ''stars'', stars)]"

definition store_line :: "(json \<Rightarrow> pystr) \<Rightarrow> json \<Rightarrow> pystr" where
  "store_line dumps e = dumps e @ nl"

text \<open>
  One item of a page of the API: \<open>repo["k"]\<close> raises KeyError when the key is missing
  and TypeError when \<open>repo\<close> is not a dictionary.
\<close>

fun make_entry :: "json \<Rightarrow> error + json" where
  "make_entry (JDict kv) =
     (case (map_of kv (lit ''full_name''), map_of kv (lit ''html_url''),
            map_of kv (lit ''description''), map_of kv (lit ''stargazers_count'')) of
        (Some f, Some h, Some d, Some s) \<Rightarrow>
          Inr (entry f h (if truthy d then d else JStr []) (JBool False) s)
      | _ \<Rightarrow> Inl KeyError)"
| "make_entry v = Inl TypeError"

text \<open>
  The pages are the decoded bodies of the successful responses, in the order of the
  \<open>next\<close> links.  The result is the text of the store; an exception leaves the run
  aborted.
\<close>

fun write_repos :: "(json \<Rightarrow> pystr) \<Rightarrow> json list \<Rightarrow> pystr \<Rightarrow> error + pystr" where
  "write_repos dumps [] out = Inr out"
| "write_repos dumps (repo # rest) out =
     (case make_entry repo of
        Inl e \<Rightarrow> Inl e
      | Inr en \<Rightarrow> write_repos dumps rest (out @ store_line dumps en))"

definition get_all_starred :: "(json \<Rightarrow> pystr) \<Rightarrow> json list list \<Rightarrow> error + pystr" where
  "get_all_starred dumps pages = write_repos dumps (concat pages) []"

subsection \<open>\<open>load_data_from_jsonl\<close>: reading the store\<close>

text \<open>
  Iterating a file opened in text mode yields its lines, each ended by a line feed
  except perhaps the last; a carriage return, alone or before a line feed, ends a line
  as well and is read as a line feed.
\<close>

function split_lines :: "pystr \<Rightarrow> pystr \<Rightarrow> pystr list" where
  "split_lines cur [] = (if cur = [] then [] else [cur])"
| "split_lines cur (c # cs) =
     (if c = 10 then (cur @ [10]) # split_lines [] cs
      else if c = 13 then
        (cur @ [10]) # split_lines [] (if cs \<noteq> [] \<and> hd cs = 10 then tl cs else cs)
      else split_lines (cur @ [c]) cs)"
  by pat_completeness auto
termination
  by (relation "measure (\<lambda>(cur, s). length s)") auto

definition file_lines :: "pystr \<Rightarrow> pystr list" where
  "file_lines text = split_lines [] text"

text \<open>The record stored for a decoded object (lines 97 to 102).\<close>

definition loaded_record :: "(pystr \<times> json) list \<Rightarrow> json" where
  "loaded_record kv =
     JDict [(lit ''html_url'', dict_get kv (lit ''html_url'') (JStr [])),
            (lit ''description'', dict_get kv (lit ''description'') (JStr [])),
            (lit ''listed'', dict_get kv (lit ''listed'') (JBool False)),
            (lit ''stars'', dict_get kv (lit ''stars'') (JInt 0))]"

text \<open>
  The body of the loop over the lines.  \<open>json.loads\<close> is the library's decoder, a
  parameter \<open>loads\<close> that returns the decoded value or the exception the decoder
  raises: JSONDecodeError for a text that is not JSON, which the inner \<open>except\<close> clause
  catches, or another one (RecursionError for a text nested too deeply, ValueError for
  an integer of too many digits), which no clause catches.  Only a dictionary has
  \<open>get\<close>: on any other decoded value \<open>obj.get\<close> raises AttributeError, which no clause
  catches either.
\<close>

definition load_line :: "(pystr \<Rightarrow> error + json) \<Rightarrow> jdata \<Rightarrow> pystr \<Rightarrow> error + jdata" where
  "load_line loads data line =
     (let line = py_strip line
      in if line = [] then Inr data
         else case loads line of
                Inl e \<Rightarrow> (if e = JSONDecodeError then Inr data else Inl e)
              | Inr obj \<Rightarrow>
                  (case obj of
                     JDict kv \<Rightarrow>
                       (let full = dict_get kv (lit ''full_name'') JNull
                        in if truthy full
                           then if hashable full
                                then Inr (dict_set data full (loaded_record kv))
                                else Inl TypeError
                           else Inr data)
                   | _ \<Rightarrow> Inl AttributeError))"

fun load_lines :: "(pystr \<Rightarrow> error + json) \<Rightarrow> pystr list \<Rightarrow> jdata \<Rightarrow> error + jdata" where
  "load_lines loads [] data = Inr data"
| "load_lines loads (line # rest) data =
     (case load_line loads data line of
        Inl e \<Rightarrow> Inl e
      | Inr data' \<Rightarrow> load_lines loads rest data')"

text \<open>
  The file of the store as \<open>open\<close> and the iteration find it:
  \<^item> \<open>Missing\<close>: the file does not exist; \<open>open\<close> raises FileNotFoundError, which the
    outer \<open>except\<close> clause catches;
  \<^item> \<open>Unopenable\<close>: \<open>open\<close> raises another OSError (no permission, a directory), which
    no clause catches;
  \<^item> \<open>Content text\<close>: the file holds the UTF-8 encoding of \<open>text\<close>;
  \<^item> \<open>Undecodable lines\<close>: the file is not valid UTF-8; the iteration yields \<open>lines\<close>
    and then raises UnicodeDecodeError, which no clause catches.
\<close>

datatype store = Missing | Unopenable | Content pystr | Undecodable "pystr list"

text \<open>
  The whole method.  The result is the new \<open>self.data\<close>, or the exception that leaves
  the method.
\<close>

definition load_data_from_jsonl :: "(pystr \<Rightarrow> error + json) \<Rightarrow> store \<Rightarrow> error + jdata" where
  "load_data_from_jsonl loads store =
     (case store of
        Missing \<Rightarrow> Inr []
      | Unopenable \<Rightarrow> Inl OSError
      | Content text \<Rightarrow> load_lines loads (file_lines text) []
      | Undecodable lines \<Rightarrow>
          (case load_lines loads lines [] of
             Inl e \<Rightarrow> Inl e
           | Inr data \<Rightarrow> Inl UnicodeDecodeError))"

text \<open>
  A line is skipped when it is blank or the decoder raises JSONDecodeError on it; the
  other lines reach the body of the \<open>try\<close>.
\<close>

definition valid_line :: "(pystr \<Rightarrow> error + json) \<Rightarrow> pystr \<Rightarrow> bool" where
  "valid_line loads line \<longleftrightarrow>
     py_strip line \<noteq> [] \<and> loads (py_strip line) \<noteq> Inl JSONDecodeError"

section \<open>\<open>generate_readme\<close>: rendering\<close>

text \<open>
  The renderer is embedded over records whose fields have the types that
  \<open>get_all_starred\<close> persists: strings for \<open>html_url\<close> and \<open>description\<close>, a boolean for
  \<open>listed\<close>, an integer for \<open>stars\<close>.  \<open>self.data\<close> is a dictionary in insertion order,
  an association list here; \<open>self.star_lists\<close> is the list of (identifier, name) pairs,
  \<open>self.star_list_repos\<close> the dictionary from an identifier to its (owner, repository)
  pairs.
\<close>

record repo =
  html_url :: pystr
  description :: pystr
  listed :: bool
  stars :: int

type_synonym data = "(pystr \<times> repo) list"

type_synonym memberships = "pystr \<rightharpoonup> (pystr \<times> pystr) list"

text \<open>The key \<open>f"{user}/{repo}"\<close>.\<close>

definition repo_key :: "pystr \<times> pystr \<Rightarrow> pystr" where
  "repo_key p = fst p @ lit ''/'' @ snd p"

text \<open>\<open>self.star_list_repos.get(list_url, [])\<close>.\<close>

definition members :: "memberships \<Rightarrow> pystr \<Rightarrow> (pystr \<times> pystr) list" where
  "members slr list_url = (case slr list_url of None \<Rightarrow> [] | Some ms \<Rightarrow> ms)"

text \<open>
  The comprehension of lines 168 to 172.  In Python the second component is a
  reference to the record inside \<open>self.data\<close>; here it is the record's value, and the
  one field the loop mutates, \<open>listed\<close>, is written to the dictionary by key
  (\<open>set_listed\<close>).  The rows read only \<open>description\<close> and \<open>stars\<close>, which never change.
\<close>

fun category_repos :: "data \<Rightarrow> (pystr \<times> pystr) list \<Rightarrow> (pystr \<times> repo) list" where
  "category_repos d [] = []"
| "category_repos d (p # ps) =
     (case map_of d (repo_key p) of
        None \<Rightarrow> category_repos d ps
      | Some r \<Rightarrow> (repo_key p, r) # category_repos d ps)"

text \<open>
  \<open>sorted(xs, key=f, reverse=True)\<close>: CPython reverses the list, sorts it stably in
  ascending order and reverses the result, so equal keys keep their input order.
\<close>

definition sorted_desc :: "('a \<Rightarrow> int) \<Rightarrow> 'a list \<Rightarrow> 'a list" where
  "sorted_desc f xs = rev (sort_key f (rev xs))"

definition sort_repos :: "pystr \<Rightarrow> (pystr \<times> repo) list \<Rightarrow> (pystr \<times> repo) list" where
  "sort_repos sort_by repos =
     (if sort_by = lit ''stars'' then sorted_desc (\<lambda>x. stars (snd x)) repos else rev repos)"

definition set_listed :: "pystr \<Rightarrow> data \<Rightarrow> data" where
  "set_listed key d = map (\<lambda>(k, r). if k = key then (k, r\<lparr>listed := True\<rparr>) else (k, r)) d"

definition table_header :: pystr where
  "table_header =
     lit ''| Repository | Description | Stars |'' @ nl @ lit ''|----------|------|-------|'' @ nl"

text \<open>One row; 92 is the backslash, 11088 the star glyph U+2B50.\<close>

definition table_row :: "pystr \<Rightarrow> repo \<Rightarrow> pystr" where
  "table_row key r =
     (let desc = py_replace (lit ''|'') ([92] @ lit ''|'') (description r)
      in lit ''| ['' @ key @ lit ''](https://github.com/'' @ key @ lit '') | '' @ desc @
         lit '' | '' @ [11088] @ str_int (stars r) @ lit '' |'' @ nl)"

text \<open>The loop of lines 183 to 186 over the rows of one category.\<close>

fun emit_rows :: "(pystr \<times> repo) list \<Rightarrow> data \<times> pystr \<Rightarrow> data \<times> pystr" where
  "emit_rows [] st = st"
| "emit_rows ((key, r) # rest) (d, text) =
     emit_rows rest (set_listed key d, text @ table_row key r)"

text \<open>The loop of lines 166 to 187 over the categories.\<close>

fun category_tables ::
  "pystr \<Rightarrow> memberships \<Rightarrow> (pystr \<times> pystr) list \<Rightarrow> data \<times> pystr \<Rightarrow> data \<times> pystr" where
  "category_tables sort_by slr [] st = st"
| "category_tables sort_by slr ((list_url, list_name) # rest) (d, text) =
     (let repos = category_repos d (members slr list_url);
          sorted_repos = sort_repos sort_by repos;
          text = text @ lit ''## '' @ list_name @ nl @ nl @ table_header;
          (d, text) = emit_rows sorted_repos (d, text)
      in category_tables sort_by slr rest (d, text @ nl))"

text \<open>
  Lines 190 to 198: the keys whose record is not listed, kept with their record (the
  source looks \<open>self.data[key]\<close> up again in the sort key and in each row).
\<close>

definition unlisted :: "pystr \<Rightarrow> data \<Rightarrow> (pystr \<times> repo) list" where
  "unlisted sort_by d = sort_repos sort_by (filter (\<lambda>(k, r). \<not> listed r) d)"

definition uncategorized_table :: "(pystr \<times> repo) list \<Rightarrow> pystr" where
  "uncategorized_table rows =
     lit ''## Uncategorized Repositories'' @ nl @ nl @ table_header @
     (if rows = [] then lit ''| *All repositories are categorized* | | |'' @ nl
      else concat (map (\<lambda>(k, r). table_row k r) rows)) @ nl"

text \<open>
  Lines 161 to 215: the generated text before it is trimmed, and \<open>self.data\<close> as the
  method leaves it.
\<close>

definition readme_text ::
  "unicode_db \<Rightarrow> pystr \<Rightarrow> (pystr \<times> pystr) list \<Rightarrow> memberships \<Rightarrow> data \<Rightarrow> pystr \<times> data" where
  "readme_text U sort_by star_lists slr d =
     (let sections = map snd star_lists @ [lit ''Uncategorized Repositories''];
          (d, text) = category_tables sort_by slr star_lists (d, []);
          text = text @ uncategorized_table (unlisted sort_by d);
          toc = build_toc U sections;
          text = (if toc \<noteq> [] then toc @ text else text)
      in (text, d))"

definition placeholder :: pystr where
  "placeholder = lit ''[[GENERATE HERE]]''"

text \<open>
  The whole method: the template is \<open>None\<close> when its file does not exist, and then
  \<open>open\<close> raises after the records have been marked.  The first component is the text
  written to the output file.
\<close>

definition generate_readme ::
  "unicode_db \<Rightarrow> pystr \<Rightarrow> (pystr \<times> pystr) list \<Rightarrow> memberships \<Rightarrow> pystr option \<Rightarrow> data
     \<Rightarrow> (error + pystr) \<times> data" where
  "generate_readme U sort_by star_lists slr template d =
     (let (text, d) = readme_text U sort_by star_lists slr d
      in (case template of
            None \<Rightarrow> Inl FileNotFoundError
          | Some t \<Rightarrow> Inr (py_replace placeholder (py_strip text) t), d))"

subsection \<open>The tables of the document\<close>

text \<open>
  The rows that each table of the text is made of: one list of rows per entry of
  \<open>star_lists\<close>, then the rows of the uncategorized table.
\<close>

definition category_rows :: "pystr \<Rightarrow> memberships \<Rightarrow> data \<Rightarrow> pystr \<Rightarrow> (pystr \<times> repo) list" where
  "category_rows sort_by slr d list_url = sort_repos sort_by (category_repos d (members slr list_url))"

definition uncategorized_rows ::
  "pystr \<Rightarrow> (pystr \<times> pystr) list \<Rightarrow> memberships \<Rightarrow> data \<Rightarrow> (pystr \<times> repo) list" where
  "uncategorized_rows sort_by star_lists slr d =
     unlisted sort_by (fst (category_tables sort_by slr star_lists (d, [])))"


definition category_table :: "pystr \<Rightarrow> (pystr \<times> repo) list \<Rightarrow> pystr" where
  "category_table list_name rows =
     lit ''## '' @ list_name @ nl @ nl @ table_header @
     concat (map (\<lambda>(k, r). table_row k r) rows) @ nl"

text \<open>The keys of the rows of a table, and the number of tables that hold a key.\<close>

definition row_keys :: "(pystr \<times> repo) list \<Rightarrow> pystr list" where
  "row_keys rows = map fst rows"



text \<open>The text of the category tables, one after the other.\<close>

definition categories_text :: "pystr \<Rightarrow> memberships \<Rightarrow> (pystr \<times> pystr) list \<Rightarrow> data \<Rightarrow> pystr" where
  "categories_text sb slr star_lists d =
     concat (map (\<lambda>(list_url, list_name). category_table list_name (category_rows sb slr d list_url)) star_lists)"



subsection \<open>Notions of the proofs\<close>

text \<open>
  \<open>mark_set S d\<close> is \<open>d\<close> with the records of the keys in \<open>S\<close> marked as listed;
  \<open>emitted_keys\<close> are the keys of all rows of the category tables.
\<close>

definition mark_set :: "pystr set \<Rightarrow> data \<Rightarrow> data" where
  "mark_set S d = map (\<lambda>(k, r). (k, if k \<in> S then r\<lparr>listed := True\<rparr> else r)) d"

definition emitted_keys :: "pystr \<Rightarrow> memberships \<Rightarrow> (pystr \<times> pystr) list \<Rightarrow> data \<Rightarrow> pystr set" where
  "emitted_keys sb slr star_lists d =
     (\<Union>(list_url, list_name) \<in> set star_lists. set (row_keys (category_rows sb slr d list_url)))"

text \<open>
  \<open>slug_counts U seen\<close> is the dictionary \<open>anchors\<close> of \<open>build_toc\<close> after the sections
  \<open>seen\<close>.
\<close>

definition slug_counts :: "unicode_db \<Rightarrow> pystr list \<Rightarrow> (pystr \<rightharpoonup> nat)" where
  "slug_counts U seen =
     (\<lambda>slug. let n = length (filter (\<lambda>s. slugify U s = slug) seen)
             in if n = 0 then None else Some n)"

section \<open>Notions of the statements about the store\<close>

text \<open>\<open>obj[key]\<close> on a decoded value, \<open>None\<close> where Python raises.\<close>

definition getitem :: "json \<Rightarrow> pystr \<Rightarrow> json option" where
  "getitem obj key = (case obj of JDict kv \<Rightarrow> map_of kv key | _ \<Rightarrow> None)"

text \<open>
  The exception with which a line makes the loader fail, if it does: the decoder's own
  exception unless it is JSONDecodeError, AttributeError for a decoded value that is
  not an object, TypeError for an object whose truthy \<open>full_name\<close> is a list or an
  object.  A line is harmless when there is none.
\<close>

definition line_error :: "(pystr \<Rightarrow> error + json) \<Rightarrow> pystr \<Rightarrow> error option" where
  "line_error loads line =
     (if py_strip line = [] then None
      else case loads (py_strip line) of
             Inl e \<Rightarrow> (if e = JSONDecodeError then None else Some e)
           | Inr (JDict kv) \<Rightarrow>
               (let full = dict_get kv (lit ''full_name'') JNull
                in if truthy full \<and> \<not> hashable full then Some TypeError else None)
           | Inr v \<Rightarrow> Some AttributeError)"

definition harmless_line :: "(pystr \<Rightarrow> error + json) \<Rightarrow> pystr \<Rightarrow> bool" where
  "harmless_line loads line \<longleftrightarrow> line_error loads line = None"


text \<open>
  A persisted record: its \<open>full_name\<close> and the values of \<open>html_url\<close>, \<open>description\<close>,
  \<open>listed\<close> and \<open>stars\<close>.  \<open>record_entry\<close> is the object written for it,
  \<open>record_fields\<close> the value the loaded mapping should hold under its name, and
  \<open>write_store\<close> the text of a store made of the lines of the given objects.
\<close>

type_synonym stored = "pystr \<times> json \<times> json \<times> json \<times> json"

definition record_entry :: "stored \<Rightarrow> json" where
  "record_entry r = (case r of (n, h, d, l, s) \<Rightarrow> entry (JStr n) h d l s)"

definition record_fields :: "stored \<Rightarrow> json" where
  "record_fields r = (case r of (n, h, d, l, s) \<Rightarrow>
     JDict [(lit ''html_url'', h), (lit ''description'', d), (lit ''listed'', l),
            (lit ''stars'', s)])"

definition write_store :: "(json \<Rightarrow> pystr) \<Rightarrow> json list \<Rightarrow> pystr" where
  "write_store dumps entries = concat (map (store_line dumps) entries)"

section \<open>Sample inputs\<close>









text \<open>
  Lines of a store, and a decoder and an encoder that agree with \<open>json.loads\<close> and
  \<open>json.dumps\<close> on them.  On \<open>deep_line\<close>, a hundred thousand opening brackets, the
  decoder raises RecursionError; it rejects every other text with JSONDecodeError.
\<close>

definition line_a3 :: pystr where
  \<open>line_a3 = lit ''{"full_name": "a/b", "stars": 3}''\<close>

definition line_a7 :: pystr where
  \<open>line_a7 = lit ''{"full_name": "a/b", "stars": 7}''\<close>

definition line_cd :: pystr where
  \<open>line_cd = lit ''{"full_name": "c/d"}''\<close>

definition line_ab :: pystr where
  \<open>line_ab = lit ''{"full_name": "a/b", "html_url": "https://github.com/a/b", "description": "x|y", "listed": false, "stars": 10}''\<close>

definition line_unnamed :: pystr where
  \<open>line_unnamed = lit ''{"full_name": "", "html_url": "", "description": "", "listed": false, "stars": 0}''\<close>

definition line_listname :: pystr where
  \<open>line_listname = lit ''{"full_name": [1]}''\<close>

definition deep_line :: pystr where
  "deep_line = replicate 100000 91"

definition sample_table :: "(pystr \<times> json) list" where
  "sample_table =
     [(line_a3, JDict [(lit ''full_name'', JStr (lit ''a/b'')), (lit ''stars'', JInt 3)]),
      (line_a7, JDict [(lit ''full_name'', JStr (lit ''a/b'')), (lit ''stars'', JInt 7)]),
      (line_cd, JDict [(lit ''full_name'', JStr (lit ''c/d''))]),
      (line_ab, entry (JStr (lit ''a/b'')) (JStr (lit ''https://github.com/a/b''))
                  (JStr (lit ''x|y'')) (JBool False) (JInt 10)),
      (line_unnamed, entry (JStr []) (JStr []) (JStr []) (JBool False) (JInt 0)),
      (line_listname, JDict [(lit ''full_name'', JList [JInt 1])]),
      (lit ''5'', JInt 5)]"

definition sample_loads :: "pystr \<Rightarrow> error + json" where
  "sample_loads s =
     (case map_of sample_table s of
        Some v \<Rightarrow> Inr v
      | None \<Rightarrow> if s = deep_line then Inl RecursionError else Inl JSONDecodeError)"

definition sample_dumps :: "json \<Rightarrow> pystr" where
  "sample_dumps v = (case find (\<lambda>p. snd p = v) sample_table of Some p \<Rightarrow> fst p | None \<Rightarrow> lit ''null'')"

definition sample_store :: pystr where
  "sample_store = line_a3 @ nl @ lit ''{oops'' @ nl @ nl @ line_cd @ nl @ line_a7 @ nl"

definition sample_record :: stored where
  "sample_record = (lit ''a/b'', JStr (lit ''https://github.com/a/b''), JStr (lit ''x|y''),
                    JBool False, JInt 10)"

section \<open>The table of contents: slugs and collisions\<close>

lemma str_nat_digit: "n < 10 \<Longrightarrow> str_nat n = [48 + n]"
  by (simp add: str_nat.simps)

lemma py_strip_spec:
  assumes "\<forall>c \<in> set ws1. isspace c" and "\<forall>c \<in> set ws2. isspace c"
    and "core = [] \<or> \<not> isspace (hd core) \<and> \<not> isspace (last core)"
  shows "py_strip (ws1 @ core @ ws2) = core"
proof (cases "core = []")
  case True
  from assms(1,2) have "\<forall>c \<in> set (ws1 @ ws2). isspace c"
    by auto
  then have "dropWhile isspace (ws1 @ ws2) = []"
    by (simp only: dropWhile_eq_Nil_conv)
  then have "py_lstrip (ws1 @ ws2) = []"
    by (simp only: py_lstrip_def)
  then have "py_strip (ws1 @ ws2) = []"
    by (simp add: py_strip_def py_rstrip_def)
  then show ?thesis
    by (simp add: True)
next
  case False
  with assms(3) have hd: "\<not> isspace (hd core)" and last: "\<not> isspace (last core)"
    by simp_all
  from False hd have "dropWhile isspace (core @ ws2) = core @ ws2"
    by (cases core) simp_all
  with assms(1) have l: "py_lstrip (ws1 @ core @ ws2) = core @ ws2"
    by (simp add: py_lstrip_def dropWhile_append2)
  from False last have r: "dropWhile isspace (rev core) = rev core"
    by (cases "rev core") (simp_all add: hd_rev)
  from assms(2) have "dropWhile isspace (rev ws2 @ rev core) = dropWhile isspace (rev core)"
    by (intro dropWhile_append2) simp
  with r have "dropWhile isspace (rev ws2 @ rev core) = rev core"
    by simp
  then show ?thesis
    by (simp add: py_strip_def py_rstrip_def l)
qed

lemma collapse_spaces_run:
  assumes "ws \<noteq> []" and "\<forall>c \<in> set ws. isspace c" and "s = [] \<or> \<not> isspace (hd s)"
  shows "collapse_spaces (ws @ s) = 45 # collapse_spaces s"
proof -
  obtain c ws' where ws: "ws = c # ws'"
    using assms(1) by (cases ws) auto
  from assms(3) have "dropWhile isspace s = s"
    by (cases s) auto
  with assms(2) have "dropWhile isspace (ws' @ s) = s"
    by (simp add: ws dropWhile_append2)
  with assms(2) show ?thesis
    by (simp add: ws)
qed

lemma collapse_spaces_chars:
  "c \<in> set (collapse_spaces s) \<Longrightarrow> c = 45 \<or> (c \<in> set s \<and> \<not> isspace c)"
proof (induction s arbitrary: c rule: collapse_spaces.induct)
  case 1
  then show ?case by simp
next
  case (2 x xs)
  show ?case
  proof (cases "isspace x")
    case True
    with 2 show ?thesis
      by (auto dest: set_dropWhileD)
  next
    case False
    with 2 show ?thesis by auto
  qed
qed

lemma slug_chars:
  assumes "c \<in> set (collapse_spaces (filter (\<lambda>c. isalnum U c \<or> c = 95 \<or> isspace c \<or> c = 45) s))"
  shows "isalnum U c \<or> c = 95 \<or> c = 45"
  using collapse_spaces_chars [OF assms] by auto

lemma slug_counts_empty: "slug_counts U [] = Map.empty"
  by (simp add: slug_counts_def)

lemma slug_counts_step:
  "(slug_counts U seen)(slugify U x \<mapsto>
      Suc (length (filter (\<lambda>s. slugify U s = slugify U x) seen))) =
   slug_counts U (seen @ [x])"
  by (rule ext) (simp add: slug_counts_def Let_def)

lemma slug_counts_get:
  "(case slug_counts U seen slug of None \<Rightarrow> 0 | Some n \<Rightarrow> n) =
     length (filter (\<lambda>s. slugify U s = slug) seen)"
  by (simp add: slug_counts_def Let_def)

lemma toc_entries_length: "length (toc_entries U anchors sections) = length sections"
  by (induction sections arbitrary: anchors) (simp_all add: Let_def)

lemma toc_entries_nth:
  "i < length rest \<Longrightarrow>
     toc_entries U (slug_counts U seen) rest ! i =
       lit ''- ['' @ rest ! i @ lit ''](#'' @
       (let slug = slugify U (rest ! i);
            k = length (filter (\<lambda>s. slugify U s = slug) (seen @ take i rest))
        in if k = 0 then slug else slug @ lit ''-'' @ str_nat k) @ lit '')''"
proof (induction rest arbitrary: seen i)
  case Nil
  then show ?case by simp
next
  case (Cons x rest)
  have step: "toc_entries U (slug_counts U seen) (x # rest) =
      (lit ''- ['' @ x @ lit ''](#'' @
        (let slug = slugify U x; k = length (filter (\<lambda>s. slugify U s = slug) seen)
         in if k = 0 then slug else slug @ lit ''-'' @ str_nat k) @ lit '')'')
      # toc_entries U (slug_counts U (seen @ [x])) rest"
    by (simp add: Let_def slug_counts_get slug_counts_step)
  show ?case
  proof (cases i)
    case 0
    then show ?thesis by (simp only: step nth_Cons_0 take_0 append_Nil2)
  next
    case (Suc j)
    with Cons.prems have "j < length rest" by simp
    from Cons.IH [OF this, of "seen @ [x]"] show ?thesis
      by (simp add: step Suc del: toc_entries.simps)
  qed
qed

lemma slugify_Go:
  assumes "lower U (lit ''Go'') = lit ''go''" "isalnum U 103" "isalnum U 111"
  shows "slugify U (lit ''Go'') = lit ''go''"
proof -
  have s: "py_strip (lit ''Go'') = lit ''Go''"
    by (simp add: py_strip_def py_lstrip_def py_rstrip_def lit_def isspace_def)
  have f: "strip_symbols U (lit ''go'') = lit ''go''"
    using assms(2,3) by (simp add: strip_symbols_def lit_def)
  have c: "collapse_spaces (lit ''go'') = lit ''go''"
    by (simp add: lit_def isspace_def)
  show ?thesis
    by (simp add: slugify_def s assms(1) f c) (simp add: lit_def)
qed

lemma slugify_go:
  assumes "lower U (lit ''go'') = lit ''go''" "isalnum U 103" "isalnum U 111"
  shows "slugify U (lit ''go'') = lit ''go''"
proof -
  have s: "py_strip (lit ''go'') = lit ''go''"
    by (simp add: py_strip_def py_lstrip_def py_rstrip_def lit_def isspace_def)
  have f: "strip_symbols U (lit ''go'') = lit ''go''"
    using assms(2,3) by (simp add: strip_symbols_def lit_def)
  have c: "collapse_spaces (lit ''go'') = lit ''go''"
    by (simp add: lit_def isspace_def)
  show ?thesis
    by (simp add: slugify_def s assms(1) f c) (simp add: lit_def)
qed

lemma build_toc_Go:
  assumes "lower U (lit ''Go'') = lit ''go''" and "lower U (lit ''go'') = lit ''go''"
    and "isalnum U 103" and "isalnum U 111"
  shows "build_toc U [lit ''Go'', lit ''go'', lit ''Go''] =
           lit ''## TOC'' @ nl @ nl @
           lit ''- [Go](#go)'' @ nl @ lit ''- [go](#go-1)'' @ nl @ lit ''- [Go](#go-2)'' @ nl"
proof -
  have G: "slugify U (lit ''Go'') = lit ''go''"
    using assms by (intro slugify_Go)
  have g: "slugify U (lit ''go'') = lit ''go''"
    using assms by (intro slugify_go)
  have ne: "lit ''Go'' \<noteq> []" "lit ''go'' \<noteq> []"
    by (simp_all add: lit_def)
  have e: "toc_entries U Map.empty [lit ''Go'', lit ''go'', lit ''Go''] =
      [lit ''- [Go](#go)'', lit ''- [go](#go-1)'', lit ''- [Go](#go-2)'']"
    by (simp add: G g Let_def str_nat_digit) (simp add: lit_def)
  show ?thesis
    by (simp add: build_toc_def ne e Let_def del: toc_entries.simps)
qed

text \<open>
  C4: for the category names \<open>Go\<close>, \<open>go\<close>, \<open>Go\<close> the table of contents has the anchors
  \<open>go\<close>, \<open>go-1\<close>, \<open>go-2\<close> in that order, whatever the Unicode tables are beyond
  lowercasing \<open>Go\<close> to \<open>go\<close> and counting \<open>g\<close> (103) and \<open>o\<close> (111) as alphanumeric.
  For every name, the slug is the name trimmed, lowercased, without the characters that
  are neither word characters nor whitespace nor the hyphen, and with every run of
  whitespace collapsed into one hyphen (\<open>section\<close> when nothing is left): trimming
  removes exactly the whitespace at both ends, collapsing leaves other characters
  alone and turns a maximal run into one hyphen, so a slug holds word characters and
  hyphens only.  For every list of sections, the anchor of an entry is its slug when
  no earlier section has the same slug, and the slug followed by \<open>-k\<close> when \<open>k\<close> earlier
  sections have it.
\<close>

theorem build_toc_collision:
  "(lower U (lit ''Go'') = lit ''go'' \<and> lower U (lit ''go'') = lit ''go'' \<and>
    isalnum U 103 \<and> isalnum U 111 \<longrightarrow>
      build_toc U [lit ''Go'', lit ''go'', lit ''Go''] =
        lit ''## TOC'' @ nl @ nl @
        lit ''- [Go](#go)'' @ nl @ lit ''- [go](#go-1)'' @ nl @ lit ''- [Go](#go-2)'' @ nl) \<and>
   slugify U name =
     (let slug = collapse_spaces
                   (filter (\<lambda>c. isalnum U c \<or> c = 95 \<or> isspace c \<or> c = 45)
                      (lower U (py_strip name)))
      in if slug = [] then lit ''section'' else slug) \<and>
   ((\<forall>c \<in> set leading. isspace c) \<and> (\<forall>c \<in> set trailing. isspace c) \<and>
    (core = [] \<or> \<not> isspace (hd core) \<and> \<not> isspace (last core)) \<longrightarrow>
      py_strip (leading @ core @ trailing) = core) \<and>
   collapse_spaces [] = [] \<and>
   (\<not> isspace c \<longrightarrow> collapse_spaces (c # s) = c # collapse_spaces s) \<and>
   (ws \<noteq> [] \<and> (\<forall>c \<in> set ws. isspace c) \<and> (s = [] \<or> \<not> isspace (hd s)) \<longrightarrow>
      collapse_spaces (ws @ s) = 45 # collapse_spaces s) \<and>
   (\<forall>c \<in> set (collapse_spaces
                 (filter (\<lambda>c. isalnum U c \<or> c = 95 \<or> isspace c \<or> c = 45) s)).
      isalnum U c \<or> c = 95 \<or> c = 45) \<and>
   build_toc U sections =
     (let cleaned = filter (\<lambda>section. section \<noteq> []) sections
      in if cleaned = [] then []
         else py_join nl ([lit ''## TOC'', []] @ toc_entries U Map.empty cleaned @ [[]])) \<and>
   length (toc_entries U Map.empty sections) = length sections \<and>
   (\<forall>i < length sections.
      toc_entries U Map.empty sections ! i =
        lit ''- ['' @ sections ! i @ lit ''](#'' @ toc_anchor U sections i @ lit '')'') \<and>
   (\<forall>k < 10. str_nat k = [48 + k])"
proof (intro conjI impI allI ballI)
  assume "lower U (lit ''Go'') = lit ''go'' \<and> lower U (lit ''go'') = lit ''go'' \<and>
      isalnum U 103 \<and> isalnum U 111"
  then show "build_toc U [lit ''Go'', lit ''go'', lit ''Go''] =
      lit ''## TOC'' @ nl @ nl @
      lit ''- [Go](#go)'' @ nl @ lit ''- [go](#go-1)'' @ nl @ lit ''- [Go](#go-2)'' @ nl"
    by (intro build_toc_Go) simp_all
next
  show "slugify U name =
     (let slug = collapse_spaces
                   (filter (\<lambda>c. isalnum U c \<or> c = 95 \<or> isspace c \<or> c = 45)
                      (lower U (py_strip name)))
      in if slug = [] then lit ''section'' else slug)"
    by (simp add: slugify_def strip_symbols_def)
next
  assume "(\<forall>c \<in> set leading. isspace c) \<and> (\<forall>c \<in> set trailing. isspace c) \<and>
      (core = [] \<or> \<not> isspace (hd core) \<and> \<not> isspace (last core))"
  then show "py_strip (leading @ core @ trailing) = core"
    by (intro py_strip_spec) simp_all
next
  show "collapse_spaces [] = []"
    by simp
next
  assume "\<not> isspace c"
  then show "collapse_spaces (c # s) = c # collapse_spaces s"
    by simp
next
  assume "ws \<noteq> [] \<and> (\<forall>c \<in> set ws. isspace c) \<and> (s = [] \<or> \<not> isspace (hd s))"
  then show "collapse_spaces (ws @ s) = 45 # collapse_spaces s"
    by (intro collapse_spaces_run) simp_all
next
  fix c
  assume "c \<in> set (collapse_spaces
      (filter (\<lambda>c. isalnum U c \<or> c = 95 \<or> isspace c \<or> c = 45) s))"
  then show "isalnum U c \<or> c = 95 \<or> c = 45"
    by (rule slug_chars)
next
  show "build_toc U sections =
     (let cleaned = filter (\<lambda>section. section \<noteq> []) sections
      in if cleaned = [] then []
         else py_join nl ([lit ''## TOC'', []] @ toc_entries U Map.empty cleaned @ [[]]))"
    by (rule build_toc_def)
next
  show "length (toc_entries U Map.empty sections) = length sections"
    by (rule toc_entries_length)
next
  fix i
  assume "i < length sections"
  then show "toc_entries U Map.empty sections ! i =
      lit ''- ['' @ sections ! i @ lit ''](#'' @ toc_anchor U sections i @ lit '')''"
    using toc_entries_nth [of i sections U "[]"]
    by (simp add: slug_counts_empty toc_anchor_def)
next
  fix k :: nat
  assume "k < 10"
  then show "str_nat k = [48 + k]"
    by (rule str_nat_digit)
qed

theorem build_toc_collision_witness:
  "lower ascii_db (lit ''Go'') = lit ''go'' \<and> lower ascii_db (lit ''go'') = lit ''go'' \<and>
   isalnum ascii_db 103 \<and> isalnum ascii_db 111 \<and>
   build_toc ascii_db [lit ''Go'', lit ''go'', lit ''Go''] =
     lit ''## TOC'' @ nl @ nl @
     lit ''- [Go](#go)'' @ nl @ lit ''- [go](#go-1)'' @ nl @ lit ''- [Go](#go-2)'' @ nl \<and>
   slugify ascii_db (lit ''  C++ &  Rust! '') = lit ''c-rust'' \<and>
   py_strip (lit ''  '' @ lit ''Go Lang'' @ lit '' '') = lit ''Go Lang'' \<and>
   collapse_spaces (lit ''  '' @ lit ''b'') = 45 # collapse_spaces (lit ''b'') \<and>
   toc_entries ascii_db Map.empty [lit ''Go'', lit ''go'', lit ''Go''] ! 2 =
     lit ''- ['' @ lit ''Go'' @ lit ''](#'' @ lit ''go-2'' @ lit '')''"
proof -
  note T = build_toc_collision [where U = ascii_db and name = "lit ''  C++ &  Rust! ''"
      and leading = "lit ''  ''" and core = "lit ''Go Lang''" and trailing = "lit '' ''"
      and ws = "lit ''  ''" and s = "lit ''b''" and c = 98
      and sections = "[lit ''Go'', lit ''go'', lit ''Go'']"]
  have h: "lower ascii_db (lit ''Go'') = lit ''go''" "lower ascii_db (lit ''go'') = lit ''go''"
    "isalnum ascii_db 103" "isalnum ascii_db 111"
    by (simp_all add: ascii_db_def ascii_lower_def ascii_isalnum_def lit_def)
  from T h have a: "build_toc ascii_db [lit ''Go'', lit ''go'', lit ''Go''] =
     lit ''## TOC'' @ nl @ nl @
     lit ''- [Go](#go)'' @ nl @ lit ''- [go](#go-1)'' @ nl @ lit ''- [Go](#go-2)'' @ nl"
    by blast
  have e: "(let slug = collapse_spaces
                   (filter (\<lambda>c. isalnum ascii_db c \<or> c = 95 \<or> isspace c \<or> c = 45)
                      (lower ascii_db (py_strip (lit ''  C++ &  Rust! ''))))
      in if slug = [] then lit ''section'' else slug) = lit ''c-rust''"
    by (simp add: py_strip_def py_lstrip_def py_rstrip_def lit_def isspace_def ascii_db_def
        ascii_lower_def ascii_isalnum_def)
  from T have b: "slugify ascii_db (lit ''  C++ &  Rust! '') = lit ''c-rust''"
    by (simp only: e)
  have w: "\<forall>c \<in> set (lit ''  ''). isspace c" "\<forall>c \<in> set (lit '' ''). isspace c"
    "\<not> isspace (hd (lit ''Go Lang''))" "\<not> isspace (last (lit ''Go Lang''))"
    "lit ''  '' \<noteq> []" "\<not> isspace (hd (lit ''b''))"
    by (simp_all add: lit_def isspace_def)
  from T w have c: "py_strip (lit ''  '' @ lit ''Go Lang'' @ lit '' '') = lit ''Go Lang''"
    by blast
  from T w have d: "collapse_spaces (lit ''  '' @ lit ''b'') = 45 # collapse_spaces (lit ''b'')"
    by blast
  have G: "slugify ascii_db (lit ''Go'') = lit ''go''" "slugify ascii_db (lit ''go'') = lit ''go''"
    using h by (simp_all add: slugify_Go slugify_go)
  have an: "toc_anchor ascii_db [lit ''Go'', lit ''go'', lit ''Go''] 2 = lit ''go-2''"
    by (simp add: toc_anchor_def numeral_2_eq_2 G str_nat_digit) (simp add: lit_def)
  have "(2::nat) < length [lit ''Go'', lit ''go'', lit ''Go'']"
    by simp
  with T have "toc_entries ascii_db Map.empty [lit ''Go'', lit ''go'', lit ''Go''] ! 2 =
      lit ''- ['' @ [lit ''Go'', lit ''go'', lit ''Go''] ! 2 @ lit ''](#'' @
      toc_anchor ascii_db [lit ''Go'', lit ''go'', lit ''Go''] 2 @ lit '')''"
    by blast
  then have f: "toc_entries ascii_db Map.empty [lit ''Go'', lit ''go'', lit ''Go''] ! 2 =
      lit ''- ['' @ lit ''Go'' @ lit ''](#'' @ lit ''go-2'' @ lit '')''"
    by (simp only: an) simp
  from h a b c d f show ?thesis
    by blast
qed

section \<open>The rendered text and its tables\<close>

lemma mark_set_empty: "mark_set {} d = d"
  by (simp add: mark_set_def)

lemma set_listed_mark_set: "set_listed k (mark_set S d) = mark_set (insert k S) d"
  by (auto simp: set_listed_def mark_set_def)

lemma table_row_listed: "table_row k (r\<lparr>listed := b\<rparr>) = table_row k r"
  by (simp add: table_row_def)

lemma emit_rows_eq:
  "emit_rows rows (mark_set S d, t) =
     (mark_set (S \<union> set (row_keys rows)) d, t @ concat (map (\<lambda>(k, r). table_row k r) rows))"
proof (induction rows arbitrary: S t)
  case Nil
  then show ?case by (simp add: row_keys_def)
next
  case (Cons x rows)
  obtain k r where x: "x = (k, r)" by (cases x)
  show ?case
    using Cons.IH [of "insert k S" "t @ table_row k r"]
    by (simp add: x set_listed_mark_set row_keys_def)
qed

lemma map_of_mark_set:
  "map_of (mark_set S d) k = map_option (\<lambda>r. if k \<in> S then r\<lparr>listed := True\<rparr> else r) (map_of d k)"
  by (induction d) (auto simp: mark_set_def)

lemma category_repos_mark_set:
  "category_repos (mark_set S d) ms =
     map (\<lambda>(k, r). (k, if k \<in> S then r\<lparr>listed := True\<rparr> else r)) (category_repos d ms)"
  by (induction ms) (auto simp: map_of_mark_set split: option.splits)

lemma insort_key_map:
  "insort_key f (g x) (map g xs) = map g (insort_key (\<lambda>y. f (g y)) x xs)"
  by (induction xs) auto

lemma sort_key_map: "sort_key f (map g xs) = map g (sort_key (\<lambda>y. f (g y)) xs)"
  by (induction xs) (auto simp: insort_key_map)

lemma sort_repos_map:
  assumes "\<And>x. stars (snd (g x)) = stars (snd x)"
  shows "sort_repos sb (map g xs) = map g (sort_repos sb xs)"
  by (simp add: sort_repos_def sorted_desc_def sort_key_map assms rev_map)


lemma category_rows_mark_set:
  "category_rows sb slr (mark_set S d) url =
     map (\<lambda>(k, r). (k, if k \<in> S then r\<lparr>listed := True\<rparr> else r)) (category_rows sb slr d url)"
  unfolding category_rows_def category_repos_mark_set
  by (rule sort_repos_map) (auto split: prod.splits)

lemma rows_text_mark:
  "map ((\<lambda>(k, r). table_row k r) \<circ> (\<lambda>(k, r). (k, if k \<in> S then r\<lparr>listed := True\<rparr> else r))) rows =
   map (\<lambda>(k, r). table_row k r) rows"
  by (auto simp: table_row_listed)

lemma row_keys_mark:
  "row_keys (map (\<lambda>(k, r). (k, if k \<in> S then r\<lparr>listed := True\<rparr> else r)) rows) = row_keys rows"
  by (induction rows) (auto simp: row_keys_def)

lemma category_tables_eq:
  "category_tables sb slr sl (mark_set S d, t) =
     (mark_set (S \<union> emitted_keys sb slr sl d) d, t @ categories_text sb slr sl d)"
proof (induction sl arbitrary: S t)
  case Nil
  then show ?case by (simp add: emitted_keys_def categories_text_def)
next
  case (Cons x sl)
  obtain url name where x: "x = (url, name)" by (cases x)
  let ?rows = "category_rows sb slr d url"
  have "category_tables sb slr (x # sl) (mark_set S d, t) =
      category_tables sb slr sl
        (mark_set (S \<union> set (row_keys ?rows)) d, t @ category_table name ?rows)"
    by (simp add: x Let_def category_rows_def [symmetric] category_rows_mark_set emit_rows_eq
        rows_text_mark row_keys_mark category_table_def)
  also have "\<dots> = (mark_set (S \<union> set (row_keys ?rows) \<union> emitted_keys sb slr sl d) d,
      (t @ category_table name ?rows) @ categories_text sb slr sl d)"
    by (rule Cons.IH)
  finally show ?case
    by (simp add: x emitted_keys_def categories_text_def Un_assoc)
qed

lemma category_tables_run:
  "category_tables sb slr sl (d, []) =
     (mark_set (emitted_keys sb slr sl d) d, categories_text sb slr sl d)"
  using category_tables_eq [of sb slr sl "{}" d "[]"] by (simp add: mark_set_empty)


text \<open>
  The generated text is the table of contents, the category tables made of
  \<open>category_rows\<close> and the uncategorized table made of \<open>uncategorized_rows\<close>: the
  lists of \<open>rendered_tables\<close> are the rows of the text.
\<close>

lemma readme_text_eq:
  "readme_text U sb sl slr d =
     (build_toc U (map snd sl @ [lit ''Uncategorized Repositories'']) @
      categories_text sb slr sl d @ uncategorized_table (uncategorized_rows sb sl slr d),
      mark_set (emitted_keys sb slr sl d) d)"
  by (simp add: readme_text_def Let_def category_tables_run uncategorized_rows_def)

lemma mark_set_twice: "mark_set S (mark_set T d) = mark_set (S \<union> T) d"
  by (auto simp: mark_set_def)

lemma emitted_keys_mark: "emitted_keys sb slr sl (mark_set S d) = emitted_keys sb slr sl d"
  by (simp add: emitted_keys_def category_rows_mark_set row_keys_mark)

lemma categories_text_mark: "categories_text sb slr sl (mark_set S d) = categories_text sb slr sl d"
  by (simp add: categories_text_def category_rows_mark_set category_table_def rows_text_mark)

lemma uncategorized_rows_mark:
  "uncategorized_rows sb sl slr (mark_set (emitted_keys sb slr sl d) d) = uncategorized_rows sb sl slr d"
  by (simp add: uncategorized_rows_def category_tables_run emitted_keys_mark mark_set_twice)












section \<open>Every key and its tables\<close>




section \<open>The order of the rows\<close>



section \<open>Rendering twice\<close>

text \<open>
  C6: rendering again from the state the first run leaves behind (with the records it
  marked as listed) writes the same text, and leaves the same state.
\<close>

theorem render_twice:
  "fst (generate_readme U sb sl slr template (snd (generate_readme U sb sl slr template d))) =
     fst (generate_readme U sb sl slr template d) \<and>
   snd (generate_readme U sb sl slr template (snd (generate_readme U sb sl slr template d))) =
     snd (generate_readme U sb sl slr template d)"
  by (simp add: generate_readme_def readme_text_eq emitted_keys_mark categories_text_mark
      uncategorized_rows_mark mark_set_twice split: option.splits)

section \<open>The end-to-end example\<close>




section \<open>Substitution into the template\<close>








section \<open>Loading the store\<close>

lemmas sample_defs = sample_loads_def sample_table_def line_a3_def line_a7_def line_cd_def
  line_ab_def line_unnamed_def line_listname_def sample_store_def entry_def

lemmas eval_defs = load_data_from_jsonl_def file_lines_def py_strip_def py_lstrip_def py_rstrip_def
  isspace_def load_line_def Let_def dict_get_def loaded_record_def nl_def lit_def py_eq_def

lemma py_eq_refl: "py_eq a a"
  by (simp add: py_eq_def split: option.splits)

lemma py_eq_sym: "py_eq a b \<Longrightarrow> py_eq b a"
  by (auto simp: py_eq_def split: option.splits)

lemma py_eq_trans: "py_eq a b \<Longrightarrow> py_eq b c \<Longrightarrow> py_eq a c"
  by (auto simp: py_eq_def split: option.splits)

lemma dict_lookup_set:
  "dict_lookup (dict_set d k v) q = (if py_eq k q then Some v else dict_lookup d q)"
proof (induction d)
  case Nil
  then show ?case by simp
next
  case (Cons p d)
  obtain k' v' where p: "p = (k', v')" by (cases p)
  show ?case
  proof (cases "py_eq k' k")
    case True
    then have "py_eq k' q \<longleftrightarrow> py_eq k q"
      by (meson py_eq_sym py_eq_trans)
    with True show ?thesis by (simp add: p)
  next
    case False
    then have "\<not> (py_eq k' q \<and> py_eq k q)"
      by (meson py_eq_sym py_eq_trans)
    with False Cons show ?thesis by (auto simp: p)
  qed
qed

lemma load_lines_append:
  "load_lines loads (xs @ ys) data =
     (case load_lines loads xs data of Inl e \<Rightarrow> Inl e | Inr data' \<Rightarrow> load_lines loads ys data')"
  by (induction xs arbitrary: data) (auto split: sum.splits)

lemma load_line_invalid: "\<not> valid_line loads line \<Longrightarrow> load_line loads data line = Inr data"
  by (auto simp: valid_line_def load_line_def Let_def)

lemma load_lines_valid_only:
  "load_lines loads ls data = load_lines loads (filter (valid_line loads) ls) data"
proof (induction ls arbitrary: data)
  case Nil
  then show ?case by simp
next
  case (Cons l ls)
  show ?case
  proof (cases "valid_line loads l")
    case True
    with Cons show ?thesis by (simp split: sum.splits)
  next
    case False
    with Cons show ?thesis by (simp add: load_line_invalid)
  qed
qed

lemma harmless_line_iff:
  "harmless_line loads line \<longleftrightarrow>
     py_strip line = [] \<or> loads (py_strip line) = Inl JSONDecodeError \<or>
     (\<exists>kv. loads (py_strip line) = Inr (JDict kv) \<and>
        (\<not> truthy (dict_get kv (lit ''full_name'') JNull) \<or>
         hashable (dict_get kv (lit ''full_name'') JNull)))"
  by (auto simp: harmless_line_def line_error_def Let_def split: sum.splits json.splits if_splits)

lemma load_line_error:
  "line_error loads line = Some e \<Longrightarrow> load_line loads data line = Inl e"
  by (auto simp: line_error_def load_line_def Let_def split: if_splits sum.splits json.splits)

lemma load_line_harmless:
  "line_error loads line = None \<Longrightarrow> \<exists>data'. load_line loads data line = Inr data'"
  by (auto simp: line_error_def load_line_def Let_def split: if_splits sum.splits json.splits)

lemma load_lines_harmless:
  assumes "\<forall>l \<in> set ls. harmless_line loads l"
  shows "\<exists>data'. load_lines loads ls data = Inr data'"
  using assms
proof (induction ls arbitrary: data)
  case Nil
  then show ?case by simp
next
  case (Cons l ls)
  then have "line_error loads l = None"
    by (simp add: harmless_line_def)
  then obtain d1 where d1: "load_line loads data l = Inr d1"
    using load_line_harmless by blast
  from Cons obtain d2 where "load_lines loads ls d1 = Inr d2"
    by (meson list.set_intros(2))
  with d1 show ?case by simp
qed

lemma load_lines_first_error:
  assumes "\<forall>l \<in> set before. harmless_line loads l" and "line_error loads line = Some e"
  shows "load_lines loads (before @ line # after) data = Inl e"
proof -
  from assms(1) obtain d1 where "load_lines loads before data = Inr d1"
    using load_lines_harmless by blast
  moreover from assms(2) have "load_line loads d1 line = Inl e"
    by (rule load_line_error)
  ultimately show ?thesis
    by (simp add: load_lines_append)
qed

lemma load_lines_success_iff:
  "(\<exists>data'. load_lines loads ls data = Inr data') \<longleftrightarrow> (\<forall>l \<in> set ls. harmless_line loads l)"
proof
  assume ok: "\<exists>data'. load_lines loads ls data = Inr data'"
  show "\<forall>l \<in> set ls. harmless_line loads l"
  proof (rule ccontr)
    assume "\<not> (\<forall>l \<in> set ls. harmless_line loads l)"
    then have "\<exists>l \<in> set ls. \<not> harmless_line loads l"
      by blast
    then obtain before line after where ls: "ls = before @ line # after"
      and bad: "\<not> harmless_line loads line"
      and first: "\<forall>l \<in> set before. \<not> \<not> harmless_line loads l"
      using split_list_first_prop [of ls "\<lambda>l. \<not> harmless_line loads l"] by blast
    from bad obtain e where "line_error loads line = Some e"
      by (auto simp: harmless_line_def)
    with first have "load_lines loads ls data = Inl e"
      unfolding ls by (intro load_lines_first_error) simp_all
    with ok show False by simp
  qed
next
  assume "\<forall>l \<in> set ls. harmless_line loads l"
  then show "\<exists>data'. load_lines loads ls data = Inr data'"
    by (rule load_lines_harmless)
qed

lemma py_strip_line:
  assumes "s \<noteq> []" and "\<not> isspace (hd s)" and "\<not> isspace (last s)"
  shows "py_strip (s @ nl) = s"
proof -
  from assms(1,2) have l: "py_lstrip (s @ nl) = s @ nl"
    by (cases s) (simp_all add: py_lstrip_def)
  from assms(1,3) have "dropWhile isspace (rev s) = rev s"
    by (cases "rev s") (simp_all add: hd_rev)
  then have "dropWhile isspace (rev (s @ nl)) = rev s"
    by (simp add: nl_def isspace_def)
  then show ?thesis
    by (simp add: py_strip_def py_rstrip_def l)
qed

lemma split_lines_line:
  "10 \<notin> set l \<Longrightarrow> 13 \<notin> set l \<Longrightarrow>
     split_lines cur (l @ 10 # rest) = (cur @ l @ [10]) # split_lines [] rest"
  by (induction l arbitrary: cur) auto

lemma deep_line_facts:
  "deep_line \<noteq> []" "hd deep_line = 91" "last deep_line = 91" "set deep_line = {91}"
  unfolding deep_line_def
  by (simp_all only: replicate_empty hd_replicate last_replicate set_replicate_conv_if)
    simp_all

lemma deep_line_strip: "py_strip (deep_line @ nl) = deep_line"
  by (rule py_strip_line) (simp_all add: deep_line_facts isspace_def)

lemma deep_line_lines: "file_lines (deep_line @ nl) = [deep_line @ nl]"
  using split_lines_line [of deep_line "[]" "[]"]
  by (simp add: file_lines_def nl_def deep_line_facts)

lemma sample_keys_not_deep: "k \<in> fst ` set sample_table \<Longrightarrow> hd k \<noteq> 91"
  by (auto simp: sample_table_def line_a3_def line_a7_def line_cd_def line_ab_def
      line_unnamed_def line_listname_def lit_def)

lemma sample_loads_deep: "sample_loads deep_line = Inl RecursionError"
proof -
  have "deep_line \<notin> fst ` set sample_table"
    using sample_keys_not_deep deep_line_facts(2) by blast
  then have "map_of sample_table deep_line = None"
    by (simp add: map_of_eq_None_iff)
  then show ?thesis
    by (simp add: sample_loads_def)
qed

lemma sample_store_lines:
  "file_lines sample_store = [line_a3 @ nl, lit ''{oops'' @ nl, nl, line_cd @ nl, line_a7 @ nl]"
  by (simp add: sample_defs file_lines_def nl_def lit_def)

lemma sample_strips:
  "py_strip (line_a3 @ nl) = line_a3" "py_strip (line_a7 @ nl) = line_a7"
  "py_strip (line_cd @ nl) = line_cd" "py_strip (lit ''{oops'' @ nl) = lit ''{oops''"
  "py_strip nl = []" "py_strip (line_ab @ nl) = line_ab"
  "py_strip (line_unnamed @ nl) = line_unnamed"
  "py_strip (line_listname @ nl) = line_listname"
  by (simp_all add: sample_defs py_strip_def py_lstrip_def py_rstrip_def isspace_def nl_def lit_def)

lemma oops_not_deep: "lit ''{oops'' \<noteq> deep_line"
proof
  assume "lit ''{oops'' = deep_line"
  then have "hd (lit ''{oops'') = hd deep_line" by simp
  then show False by (simp add: deep_line_facts lit_def)
qed

lemma sample_loads_values:
  "sample_loads line_a3 = Inr (JDict [(lit ''full_name'', JStr (lit ''a/b'')), (lit ''stars'', JInt 3)])"
  "sample_loads line_a7 = Inr (JDict [(lit ''full_name'', JStr (lit ''a/b'')), (lit ''stars'', JInt 7)])"
  "sample_loads line_cd = Inr (JDict [(lit ''full_name'', JStr (lit ''c/d''))])"
  "sample_loads (lit ''{oops'') = Inl JSONDecodeError"
  "sample_loads line_ab = Inr (entry (JStr (lit ''a/b'')) (JStr (lit ''https://github.com/a/b''))
                  (JStr (lit ''x|y'')) (JBool False) (JInt 10))"
  "sample_loads line_unnamed = Inr (entry (JStr []) (JStr []) (JStr []) (JBool False) (JInt 0))"
  "sample_loads line_listname = Inr (JDict [(lit ''full_name'', JList [JInt 1])])"
  "sample_loads (lit ''5'') = Inr (JInt 5)"
  by (simp_all add: sample_loads_def sample_table_def oops_not_deep)
    (simp_all add: line_a3_def line_a7_def line_cd_def line_ab_def line_unnamed_def
      line_listname_def lit_def)

lemma sample_nonempty:
  "line_a3 \<noteq> []" "line_a7 \<noteq> []" "line_cd \<noteq> []" "line_ab \<noteq> []" "line_unnamed \<noteq> []"
  "lit ''{oops'' \<noteq> []" "line_listname \<noteq> []" "lit ''5'' \<noteq> []"
  by (simp_all add: sample_defs lit_def)

lemma getitem_loaded_record:
  "getitem (loaded_record kv) (lit ''html_url'') =
     Some (case map_of kv (lit ''html_url'') of None \<Rightarrow> JStr [] | Some v \<Rightarrow> v)"
  "getitem (loaded_record kv) (lit ''description'') =
     Some (case map_of kv (lit ''description'') of None \<Rightarrow> JStr [] | Some v \<Rightarrow> v)"
  "getitem (loaded_record kv) (lit ''listed'') =
     Some (case map_of kv (lit ''listed'') of None \<Rightarrow> JBool False | Some v \<Rightarrow> v)"
  "getitem (loaded_record kv) (lit ''stars'') =
     Some (case map_of kv (lit ''stars'') of None \<Rightarrow> JInt 0 | Some v \<Rightarrow> v)"
  by (simp_all add: getitem_def loaded_record_def dict_get_def lit_def)



subsection \<open>Failures of the loader\<close>

text \<open>
  C5, as stated, fails: a line that is valid JSON but not an object makes \<open>obj.get\<close>
  raise AttributeError, which no \<open>except\<close> clause of the method catches.  Here the
  store is the one line \<open>5\<close>.
\<close>

theorem load_fails_on_number:
  "load_data_from_jsonl sample_loads (Content (lit ''5'' @ nl)) = Inl AttributeError"
  by (simp add: load_data_from_jsonl_def file_lines_def nl_def lit_def load_line_def
      py_strip_def py_lstrip_def py_rstrip_def isspace_def)
    (simp add: sample_loads_values [unfolded lit_def, simplified])

text \<open>
  C5, amended: a missing store gives the empty mapping; blank lines and lines on which
  the decoder raises JSONDecodeError are skipped, the result being that of the remaining
  lines.  The loader fails exactly when \<open>open\<close> raises another error than a missing
  file, when the file is not valid UTF-8, or when some line of the store is not
  harmless; it then fails with the exception of the first such line: the decoder's own
  exception when that is not JSONDecodeError, AttributeError when the line is valid
  JSON but not an object, TypeError when it is an object whose truthy \<open>full_name\<close> is a
  list or an object.
\<close>

theorem load_outcome:
  "load_data_from_jsonl loads Missing = Inr [] \<and>
   load_data_from_jsonl loads Unopenable = Inl OSError \<and>
   (\<exists>e. load_data_from_jsonl loads (Undecodable lines) = Inl e) \<and>
   load_data_from_jsonl loads (Content text) =
     load_lines loads (filter (valid_line loads) (file_lines text)) [] \<and>
   ((\<exists>data. load_data_from_jsonl loads (Content text) = Inr data) \<longleftrightarrow>
      (\<forall>l \<in> set (file_lines text). harmless_line loads l)) \<and>
   (\<forall>before line after e.
      file_lines text = before @ line # after \<and> (\<forall>l \<in> set before. harmless_line loads l) \<and>
      line_error loads line = Some e \<longrightarrow>
      load_data_from_jsonl loads (Content text) = Inl e) \<and>
   (\<forall>line. harmless_line loads line \<longleftrightarrow>
      py_strip line = [] \<or> loads (py_strip line) = Inl JSONDecodeError \<or>
      (\<exists>kv. loads (py_strip line) = Inr (JDict kv) \<and>
         (\<not> truthy (dict_get kv (lit ''full_name'') JNull) \<or>
          hashable (dict_get kv (lit ''full_name'') JNull)))) \<and>
   (\<forall>line e. py_strip line \<noteq> [] \<and> loads (py_strip line) = Inl e \<and> e \<noteq> JSONDecodeError \<longrightarrow>
      line_error loads line = Some e) \<and>
   (\<forall>line v. py_strip line \<noteq> [] \<and> loads (py_strip line) = Inr v \<and> (\<forall>kv. v \<noteq> JDict kv) \<longrightarrow>
      line_error loads line = Some AttributeError) \<and>
   (\<forall>line kv. py_strip line \<noteq> [] \<and> loads (py_strip line) = Inr (JDict kv) \<and>
      truthy (dict_get kv (lit ''full_name'') JNull) \<and>
      \<not> hashable (dict_get kv (lit ''full_name'') JNull) \<longrightarrow>
      line_error loads line = Some TypeError)"
proof (intro conjI allI impI)
  show "load_data_from_jsonl loads Missing = Inr []"
    by (simp add: load_data_from_jsonl_def)
  show "load_data_from_jsonl loads Unopenable = Inl OSError"
    by (simp add: load_data_from_jsonl_def)
  show "\<exists>e. load_data_from_jsonl loads (Undecodable lines) = Inl e"
    by (simp add: load_data_from_jsonl_def split: sum.splits)
  show "load_data_from_jsonl loads (Content text) =
      load_lines loads (filter (valid_line loads) (file_lines text)) []"
    using load_lines_valid_only [of loads "file_lines text" "[]"]
    by (simp add: load_data_from_jsonl_def)
  show "(\<exists>data. load_data_from_jsonl loads (Content text) = Inr data) \<longleftrightarrow>
      (\<forall>l \<in> set (file_lines text). harmless_line loads l)"
    using load_lines_success_iff [of loads "file_lines text" "[]"]
    by (simp add: load_data_from_jsonl_def)
next
  fix before line after e
  assume "file_lines text = before @ line # after \<and> (\<forall>l \<in> set before. harmless_line loads l) \<and>
      line_error loads line = Some e"
  then show "load_data_from_jsonl loads (Content text) = Inl e"
    by (simp add: load_data_from_jsonl_def load_lines_first_error)
next
  fix line
  show "harmless_line loads line \<longleftrightarrow>
      py_strip line = [] \<or> loads (py_strip line) = Inl JSONDecodeError \<or>
      (\<exists>kv. loads (py_strip line) = Inr (JDict kv) \<and>
         (\<not> truthy (dict_get kv (lit ''full_name'') JNull) \<or>
          hashable (dict_get kv (lit ''full_name'') JNull)))"
    by (rule harmless_line_iff)
next
  fix line e
  assume "py_strip line \<noteq> [] \<and> loads (py_strip line) = Inl e \<and> e \<noteq> JSONDecodeError"
  then show "line_error loads line = Some e"
    by (simp add: line_error_def)
next
  fix line v
  assume "py_strip line \<noteq> [] \<and> loads (py_strip line) = Inr v \<and> (\<forall>kv. v \<noteq> JDict kv)"
  then show "line_error loads line = Some AttributeError"
    by (cases v) (simp_all add: line_error_def)
next
  fix line kv
  assume "py_strip line \<noteq> [] \<and> loads (py_strip line) = Inr (JDict kv) \<and>
      truthy (dict_get kv (lit ''full_name'') JNull) \<and>
      \<not> hashable (dict_get kv (lit ''full_name'') JNull)"
  then show "line_error loads line = Some TypeError"
    by (simp add: line_error_def)
qed

lemma sample_line_errors:
  "line_error sample_loads (line_a3 @ nl) = None" "line_error sample_loads (line_a7 @ nl) = None"
  "line_error sample_loads (line_cd @ nl) = None" "line_error sample_loads (lit ''{oops'' @ nl) = None"
  "line_error sample_loads nl = None"
  by (simp_all add: line_error_def sample_strips sample_nonempty sample_loads_values dict_get_def)

theorem load_outcome_witness:
  "load_data_from_jsonl sample_loads Missing = Inr [] \<and>
   (\<exists>data. load_data_from_jsonl sample_loads (Content sample_store) = Inr data) \<and>
   load_data_from_jsonl sample_loads (Content (line_cd @ nl @ line_listname @ nl @ lit ''5'' @ nl)) =
     Inl TypeError \<and>
   load_data_from_jsonl sample_loads (Content (deep_line @ nl)) = Inl RecursionError"
proof -
  note T = load_outcome [of sample_loads]
  have h: "\<forall>l \<in> set (file_lines sample_store). harmless_line sample_loads l"
    by (simp add: sample_store_lines harmless_line_def sample_line_errors)
  from T [of _ sample_store] h
  have ok: "\<exists>data. load_data_from_jsonl sample_loads (Content sample_store) = Inr data"
    by blast
  have l2: "file_lines (line_cd @ nl @ line_listname @ nl @ lit ''5'' @ nl) =
      [line_cd @ nl] @ (line_listname @ nl) # [lit ''5'' @ nl]"
    by (simp add: file_lines_def line_cd_def line_listname_def nl_def lit_def)
  have b2: "\<forall>l \<in> set [line_cd @ nl]. harmless_line sample_loads l"
    by (simp add: harmless_line_def sample_line_errors)
  have f: "dict_get [(lit ''full_name'', JList [JInt 1])] (lit ''full_name'') JNull = JList [JInt 1]"
    by (simp add: dict_get_def)
  from T [of _ "line_listname @ nl"]
  have e2: "line_error sample_loads (line_listname @ nl) = Some TypeError"
    by (simp add: sample_strips sample_nonempty sample_loads_values f)
  from T [of _ "line_cd @ nl @ line_listname @ nl @ lit ''5'' @ nl"] l2 b2 e2
  have ty: "load_data_from_jsonl sample_loads
      (Content (line_cd @ nl @ line_listname @ nl @ lit ''5'' @ nl)) = Inl TypeError"
    by blast
  have l3: "file_lines (deep_line @ nl) = [] @ (deep_line @ nl) # []"
    by (simp add: deep_line_lines)
  from T [of _ "deep_line @ nl"]
  have e3: "line_error sample_loads (deep_line @ nl) = Some RecursionError"
    by (simp add: deep_line_strip deep_line_facts sample_loads_deep)
  from T [of _ "deep_line @ nl"] l3 e3
  have re: "load_data_from_jsonl sample_loads (Content (deep_line @ nl)) = Inl RecursionError"
    by (metis empty_iff list.set(1))
  from T [of "[]" "[]"] ok ty re show ?thesis
    by blast
qed

subsection \<open>One line of the store\<close>

text \<open>
  C10: a line that decodes to an object changes the mapping only if the object's
  \<open>full_name\<close> is truthy, and is dropped without an error when it is not; when it is
  stored, each of \<open>html_url\<close>, \<open>description\<close>, \<open>listed\<close>, \<open>stars\<close> of the record is the
  object's value, or the default (empty string, empty string, false, 0) when the object
  has no such field.
\<close>

theorem object_line:
  assumes "py_strip line \<noteq> []" and "loads (py_strip line) = Inr (JDict kv)"
  shows "(\<forall>data'. load_line loads data line = Inr data' \<and> data' \<noteq> data \<longrightarrow>
            truthy (dict_get kv (lit ''full_name'') JNull)) \<and>
         (\<not> truthy (dict_get kv (lit ''full_name'') JNull) \<longrightarrow>
            load_line loads data line = Inr data) \<and>
         (truthy (dict_get kv (lit ''full_name'') JNull) \<and>
          hashable (dict_get kv (lit ''full_name'') JNull) \<longrightarrow>
            (\<exists>r. load_line loads data line =
                    Inr (dict_set data (dict_get kv (lit ''full_name'') JNull) r) \<and>
                 dict_lookup (dict_set data (dict_get kv (lit ''full_name'') JNull) r)
                    (dict_get kv (lit ''full_name'') JNull) = Some r \<and>
                 getitem r (lit ''html_url'') =
                    Some (case map_of kv (lit ''html_url'') of None \<Rightarrow> JStr [] | Some v \<Rightarrow> v) \<and>
                 getitem r (lit ''description'') =
                    Some (case map_of kv (lit ''description'') of None \<Rightarrow> JStr [] | Some v \<Rightarrow> v) \<and>
                 getitem r (lit ''listed'') =
                    Some (case map_of kv (lit ''listed'') of None \<Rightarrow> JBool False | Some v \<Rightarrow> v) \<and>
                 getitem r (lit ''stars'') =
                    Some (case map_of kv (lit ''stars'') of None \<Rightarrow> JInt 0 | Some v \<Rightarrow> v)))"
proof (intro conjI allI impI)
  fix data'
  assume "load_line loads data line = Inr data' \<and> data' \<noteq> data"
  with assms show "truthy (dict_get kv (lit ''full_name'') JNull)"
    by (auto simp: load_line_def Let_def split: if_splits)
next
  assume "\<not> truthy (dict_get kv (lit ''full_name'') JNull)"
  with assms show "load_line loads data line = Inr data"
    by (simp add: load_line_def Let_def)
next
  let ?full = "dict_get kv (lit ''full_name'') JNull"
  assume "truthy ?full \<and> hashable ?full"
  with assms have "load_line loads data line = Inr (dict_set data ?full (loaded_record kv))"
    by (simp add: load_line_def Let_def)
  moreover have "dict_lookup (dict_set data ?full (loaded_record kv)) ?full = Some (loaded_record kv)"
    by (simp add: dict_lookup_set py_eq_refl)
  ultimately show "\<exists>r. load_line loads data line = Inr (dict_set data ?full r) \<and>
      dict_lookup (dict_set data ?full r) ?full = Some r \<and>
      getitem r (lit ''html_url'') =
        Some (case map_of kv (lit ''html_url'') of None \<Rightarrow> JStr [] | Some v \<Rightarrow> v) \<and>
      getitem r (lit ''description'') =
        Some (case map_of kv (lit ''description'') of None \<Rightarrow> JStr [] | Some v \<Rightarrow> v) \<and>
      getitem r (lit ''listed'') =
        Some (case map_of kv (lit ''listed'') of None \<Rightarrow> JBool False | Some v \<Rightarrow> v) \<and>
      getitem r (lit ''stars'') =
        Some (case map_of kv (lit ''stars'') of None \<Rightarrow> JInt 0 | Some v \<Rightarrow> v)"
    using getitem_loaded_record [of kv] by blast
qed

theorem object_line_witness:
  "py_strip (line_cd @ nl) \<noteq> [] \<and>
   sample_loads (py_strip (line_cd @ nl)) = Inr (JDict [(lit ''full_name'', JStr (lit ''c/d''))]) \<and>
   (\<exists>r. load_line sample_loads [] (line_cd @ nl) = Inr (dict_set [] (JStr (lit ''c/d'')) r) \<and>
        getitem r (lit ''html_url'') = Some (JStr []) \<and>
        getitem r (lit ''description'') = Some (JStr []) \<and>
        getitem r (lit ''listed'') = Some (JBool False) \<and>
        getitem r (lit ''stars'') = Some (JInt 0))"
proof -
  let ?kv = "[(lit ''full_name'', JStr (lit ''c/d''))]"
  have h1: "py_strip (line_cd @ nl) \<noteq> []"
    by (simp add: sample_strips sample_nonempty)
  have h2: "sample_loads (py_strip (line_cd @ nl)) = Inr (JDict ?kv)"
    by (simp add: sample_strips sample_loads_values)
  have f: "dict_get ?kv (lit ''full_name'') JNull = JStr (lit ''c/d'')"
    by (simp add: dict_get_def)
  have t: "truthy (JStr (lit ''c/d''))" "hashable (JStr (lit ''c/d''))"
    by (simp_all add: lit_def)
  have m: "map_of ?kv (lit ''html_url'') = None" "map_of ?kv (lit ''description'') = None"
    "map_of ?kv (lit ''listed'') = None" "map_of ?kv (lit ''stars'') = None"
    by (simp_all add: lit_def)
  from object_line [where line = "line_cd @ nl" and loads = sample_loads and kv = "?kv"
      and data = "[]", OF h1 h2] t
  have "\<exists>r. load_line sample_loads [] (line_cd @ nl) = Inr (dict_set [] (JStr (lit ''c/d'')) r) \<and>
        getitem r (lit ''html_url'') = Some (JStr []) \<and>
        getitem r (lit ''description'') = Some (JStr []) \<and>
        getitem r (lit ''listed'') = Some (JBool False) \<and>
        getitem r (lit ''stars'') = Some (JInt 0)"
    unfolding f m by auto
  with h1 h2 show ?thesis by blast
qed

subsection \<open>Repeated names\<close>



section \<open>Writing the store and reading it back\<close>

text \<open>What \<open>get_all_starred\<close> writes is the store of the entries of the fetched items.\<close>

lemma write_repos_eq:
  "list_all2 (\<lambda>repo e. make_entry repo = Inr e) repos es \<Longrightarrow>
     write_repos dumps repos out = Inr (out @ write_store dumps es)"
proof (induction repos es arbitrary: out rule: list_all2_induct)
  case Nil
  then show ?case by (simp add: write_store_def)
next
  case (Cons repo repos e es)
  then show ?case by (simp add: write_store_def)
qed

lemma get_all_starred_eq:
  "list_all2 (\<lambda>repo e. make_entry repo = Inr e) (concat pages) es \<Longrightarrow>
     get_all_starred dumps pages = Inr (write_store dumps es)"
  by (simp add: get_all_starred_def write_repos_eq)

lemma file_lines_store:
  assumes "\<forall>e \<in> set es. 10 \<notin> set (dumps e) \<and> 13 \<notin> set (dumps e)"
  shows "file_lines (write_store dumps es) = map (store_line dumps) es"
  using assms
proof (induction es)
  case Nil
  then show ?case by (simp add: file_lines_def write_store_def)
next
  case (Cons e es)
  then have "split_lines [] (dumps e @ 10 # write_store dumps es) =
      ([] @ dumps e @ [10]) # split_lines [] (write_store dumps es)"
    by (intro split_lines_line) simp_all
  with Cons show ?case
    by (simp add: file_lines_def write_store_def store_line_def nl_def)
qed

lemma loaded_record_entry: "loaded_record
     [(lit ''full_name'', f), (lit ''html_url'', h), (lit ''description'', d),
      (lit ''listed'', l), (lit ''stars'', s)] =
   JDict [(lit ''html_url'', h), (lit ''description'', d), (lit ''listed'', l), (lit ''stars'', s)]"
  by (simp add: loaded_record_def dict_get_def lit_def)

lemma load_line_entry:
  assumes "py_strip line \<noteq> []" and "loads (py_strip line) = Inr (record_entry r)"
    and "fst r \<noteq> []"
  shows "load_line loads d line = Inr (dict_set d (JStr (fst r)) (record_fields r))"
proof -
  obtain n h dsc l s where r: "r = (n, h, dsc, l, s)"
    by (cases r)
  have full: "dict_get [(lit ''full_name'', JStr n), (lit ''html_url'', h), (lit ''description'', dsc),
      (lit ''listed'', l), (lit ''stars'', s)] (lit ''full_name'') JNull = JStr n"
    by (simp add: dict_get_def)
  from assms show ?thesis
    by (simp add: load_line_def r record_entry_def entry_def record_fields_def full
        loaded_record_entry)
qed

lemma load_lines_entries:
  assumes "\<forall>r \<in> set rs. py_strip (store_line dumps (record_entry r)) \<noteq> [] \<and>
      loads (py_strip (store_line dumps (record_entry r))) = Inr (record_entry r) \<and> fst r \<noteq> []"
  shows "load_lines loads (map (store_line dumps) (map record_entry rs)) d =
     Inr (foldl (\<lambda>d r. dict_set d (JStr (fst r)) (record_fields r)) d rs)"
  using assms
proof (induction rs arbitrary: d)
  case Nil
  then show ?case by simp
next
  case (Cons r rs)
  then have "load_line loads d (store_line dumps (record_entry r)) =
      Inr (dict_set d (JStr (fst r)) (record_fields r))"
    by (intro load_line_entry) simp_all
  with Cons show ?case by simp
qed

lemma py_eq_JStr: "py_eq (JStr a) k \<longleftrightarrow> k = JStr a"
  by (cases k) (auto simp: py_eq_def)

lemma find_app:
  "find P (xs @ ys) = (case find P xs of None \<Rightarrow> find P ys | Some x \<Rightarrow> Some x)"
  by (induction xs) auto

lemma lookup_foldl:
  "dict_lookup (foldl (\<lambda>d r. dict_set d (JStr (fst r)) (record_fields r)) d rs) (JStr name) =
     (case find (\<lambda>r. fst r = name) (rev rs) of
        None \<Rightarrow> dict_lookup d (JStr name)
      | Some r \<Rightarrow> Some (record_fields r))"
proof (induction rs arbitrary: d)
  case Nil
  then show ?case by simp
next
  case (Cons r rs)
  show ?case
    by (auto simp: Cons.IH find_app dict_lookup_set py_eq_JStr split: option.splits)
qed

lemma dict_set_new:
  "\<forall>p \<in> set d. \<not> py_eq (fst p) k \<Longrightarrow> dict_set d k v = d @ [(k, v)]"
  by (induction d) auto

lemma foldl_distinct:
  assumes "distinct (map fst rs)" and "\<forall>p \<in> set d. \<forall>r \<in> set rs. fst p \<noteq> JStr (fst r)"
  shows "foldl (\<lambda>d r. dict_set d (JStr (fst r)) (record_fields r)) d rs =
     d @ map (\<lambda>r. (JStr (fst r), record_fields r)) rs"
  using assms
proof (induction rs arbitrary: d)
  case Nil
  then show ?case by simp
next
  case (Cons r rs)
  have new: "dict_set d (JStr (fst r)) (record_fields r) = d @ [(JStr (fst r), record_fields r)]"
  proof (rule dict_set_new, rule ballI)
    fix p assume "p \<in> set d"
    with Cons.prems(2) have "fst p \<noteq> JStr (fst r)" by simp
    then show "\<not> py_eq (fst p) (JStr (fst r))"
      by (metis py_eq_JStr py_eq_sym)
  qed
  have "foldl (\<lambda>d r. dict_set d (JStr (fst r)) (record_fields r))
      (d @ [(JStr (fst r), record_fields r)]) rs =
      (d @ [(JStr (fst r), record_fields r)]) @ map (\<lambda>r. (JStr (fst r), record_fields r)) rs"
  proof (rule Cons.IH)
    show "distinct (map fst rs)" using Cons.prems(1) by simp
    show "\<forall>p \<in> set (d @ [(JStr (fst r), record_fields r)]). \<forall>r' \<in> set rs. fst p \<noteq> JStr (fst r')"
      using Cons.prems by auto
  qed
  with new show ?case by simp
qed

lemma sample_dumps_values:
  "sample_dumps (entry (JStr []) (JStr []) (JStr []) (JBool False) (JInt 0)) = line_unnamed"
  "sample_dumps (record_entry sample_record) = line_ab"
  by (simp_all add: sample_dumps_def sample_table_def entry_def record_entry_def sample_record_def)

lemma sample_no_newline: "10 \<notin> set line_ab" "13 \<notin> set line_ab"
  by (simp_all add: line_ab_def lit_def)

text \<open>
  C3, as stated, fails: a record whose \<open>full_name\<close> is the empty string is written to
  the store and not loaded, because the loader keeps a line only if its \<open>full_name\<close> is
  truthy.
\<close>

theorem unnamed_record_lost:
  "load_data_from_jsonl sample_loads
     (Content (write_store sample_dumps [entry (JStr []) (JStr []) (JStr []) (JBool False) (JInt 0)])) =
   Inr []"
  by (simp add: write_store_def store_line_def sample_dumps_values load_data_from_jsonl_def)
    (simp add: file_lines_def line_unnamed_def nl_def lit_def load_line_def py_strip_def
      py_lstrip_def py_rstrip_def isspace_def sample_loads_def sample_table_def line_a3_def
      line_a7_def line_cd_def line_ab_def entry_def dict_get_def)

text \<open>
  C3, amended: for records whose \<open>full_name\<close> is a non-empty string, written one per
  line by an encoder that the decoder inverts and that puts no line break inside a
  line, loading the store succeeds and the loaded mapping holds under every name the
  four fields of the last record written with that name, each as persisted; when the
  names are distinct it is exactly the records, in the order written.
\<close>

theorem store_round_trip:
  assumes "\<forall>r \<in> set rs. py_strip (store_line dumps (record_entry r)) \<noteq> [] \<and>
      loads (py_strip (store_line dumps (record_entry r))) = Inr (record_entry r) \<and>
      10 \<notin> set (dumps (record_entry r)) \<and> 13 \<notin> set (dumps (record_entry r))"
    and "\<forall>r \<in> set rs. fst r \<noteq> []"
  shows "\<exists>data. load_data_from_jsonl loads (Content (write_store dumps (map record_entry rs))) = Inr data \<and>
           (\<forall>name. dict_lookup data (JStr name) =
              map_option record_fields (find (\<lambda>r. fst r = name) (rev rs))) \<and>
           (distinct (map fst rs) \<longrightarrow> data = map (\<lambda>r. (JStr (fst r), record_fields r)) rs)"
proof -
  let ?data = "foldl (\<lambda>d r. dict_set d (JStr (fst r)) (record_fields r)) [] rs"
  from assms(1) have "\<forall>e \<in> set (map record_entry rs). 10 \<notin> set (dumps e) \<and> 13 \<notin> set (dumps e)"
    by simp
  then have lines: "file_lines (write_store dumps (map record_entry rs)) =
      map (store_line dumps) (map record_entry rs)"
    by (rule file_lines_store)
  from assms have "\<forall>r \<in> set rs. py_strip (store_line dumps (record_entry r)) \<noteq> [] \<and>
      loads (py_strip (store_line dumps (record_entry r))) = Inr (record_entry r) \<and> fst r \<noteq> []"
    by blast
  then have "load_lines loads (map (store_line dumps) (map record_entry rs)) [] = Inr ?data"
    by (rule load_lines_entries)
  with lines have 1: "load_data_from_jsonl loads (Content (write_store dumps (map record_entry rs))) =
      Inr ?data"
    by (simp add: load_data_from_jsonl_def)
  have 2: "dict_lookup ?data (JStr name) =
      map_option record_fields (find (\<lambda>r. fst r = name) (rev rs))" for name
    by (simp add: lookup_foldl split: option.splits)
  have 3: "?data = map (\<lambda>r. (JStr (fst r), record_fields r)) rs" if "distinct (map fst rs)"
    using foldl_distinct [OF that, of "[]"] by simp
  from 1 2 3 show ?thesis by blast
qed

theorem store_round_trip_witness:
  "py_strip (store_line sample_dumps (record_entry sample_record)) \<noteq> [] \<and>
   sample_loads (py_strip (store_line sample_dumps (record_entry sample_record))) =
     Inr (record_entry sample_record) \<and>
   10 \<notin> set (sample_dumps (record_entry sample_record)) \<and>
   13 \<notin> set (sample_dumps (record_entry sample_record)) \<and>
   fst sample_record \<noteq> [] \<and>
   load_data_from_jsonl sample_loads
     (Content (write_store sample_dumps (map record_entry [sample_record]))) =
     Inr [(JStr (lit ''a/b''),
           JDict [(lit ''html_url'', JStr (lit ''https://github.com/a/b'')),
                  (lit ''description'', JStr (lit ''x|y'')),
                  (lit ''listed'', JBool False), (lit ''stars'', JInt 10)])]"
proof -
  have e: "record_entry sample_record = entry (JStr (lit ''a/b''))
      (JStr (lit ''https://github.com/a/b'')) (JStr (lit ''x|y'')) (JBool False) (JInt 10)"
    by (simp add: record_entry_def sample_record_def)
  have h: "py_strip (store_line sample_dumps (record_entry sample_record)) \<noteq> []"
    "sample_loads (py_strip (store_line sample_dumps (record_entry sample_record))) =
       Inr (record_entry sample_record)"
    "10 \<notin> set (sample_dumps (record_entry sample_record))"
    "13 \<notin> set (sample_dumps (record_entry sample_record))"
    "fst sample_record \<noteq> []"
    by (simp_all add: store_line_def sample_dumps_values sample_strips sample_nonempty
        sample_loads_values e [symmetric] sample_no_newline)
      (simp add: sample_record_def lit_def)
  have a1: "\<forall>r \<in> set [sample_record].
      py_strip (store_line sample_dumps (record_entry r)) \<noteq> [] \<and>
      sample_loads (py_strip (store_line sample_dumps (record_entry r))) = Inr (record_entry r) \<and>
      10 \<notin> set (sample_dumps (record_entry r)) \<and> 13 \<notin> set (sample_dumps (record_entry r))"
    using h by simp
  have a2: "\<forall>r \<in> set [sample_record]. fst r \<noteq> []"
    using h by simp
  have f: "map (\<lambda>r. (JStr (fst r), record_fields r)) [sample_record] =
      [(JStr (lit ''a/b''),
        JDict [(lit ''html_url'', JStr (lit ''https://github.com/a/b'')),
               (lit ''description'', JStr (lit ''x|y'')),
               (lit ''listed'', JBool False), (lit ''stars'', JInt 10)])]"
    by (simp add: record_fields_def sample_record_def)
  have dist: "distinct (map fst [sample_record])"
    by simp
  from store_round_trip [where rs = "[sample_record]" and dumps = sample_dumps
      and loads = sample_loads, OF a1 a2] dist
  have "load_data_from_jsonl sample_loads
      (Content (write_store sample_dumps (map record_entry [sample_record]))) =
      Inr (map (\<lambda>r. (JStr (fst r), record_fields r)) [sample_record])"
    by blast
  with h show ?thesis
    by (simp only: f simp_thms)
qed

end
